theory Spec2Isabelle
  imports Complex_Main
begin

section \<open>Values shared by the two plotting routines\<close>

text \<open>
  Python floats are modelled as exact rationals: the comparisons, the set membership test
  and the control flow of the routines are kept, the rounding error of a single float
  operation is not. Python exceptions are values of \<open>error\<close>.
\<close>

type_synonym pyfloat = rat

datatype error = ValueError | ZeroDivisionError | TypeError | IndexError | NoStyleMatch

section \<open>barplots/utils/plot\_bar\_labels.py\<close>

subsection \<open>Arguments and collaborators\<close>

text \<open>
  \<open>minor_rotation\<close> and \<open>major_rotation\<close> are \<open>Union[float, str]\<close>; the automatic
  mode is the string \<open>"auto"\<close>.
\<close>

datatype rotation = Angle pyfloat | Str string

record bar_labels_args =
  vertical :: bool
  levels :: int
  minor_rotation :: rotation
  major_rotation :: rotation
  unique_minor_labels :: bool
  unique_major_labels :: bool
  unique_data_label :: bool

text \<open>
  The results of the helpers that the routine imports, for the data frame, bar width, space
  width and custom defaults of the call:
  \<open>width\<close> is \<open>get_max_bar_position(df, bar_width, space_width)\<close>,
  \<open>text_positions l\<close> is \<open>text_positions(df, bar_width, space_width, l)\<close> as a list of
  (position, label) pairs, and \<open>sanitize_ml_labels\<close> is the label sanitizer applied with the
  call's \<open>custom_defaults\<close>.
\<close>

record collaborators =
  width :: pyfloat
  text_positions :: "int \<Rightarrow> (pyfloat \<times> string) list"
  sanitize_ml_labels :: "string list \<Rightarrow> string list"

subsection \<open>The drawing surface\<close>

text \<open>
  The routine only calls methods of \<open>axes\<close>; the surface is the sequence of those calls
  in the order they are made. Keyword arguments of \<open>tick_params\<close> that a call does not
  pass are \<open>None\<close>; the last argument of \<open>Set_ticks\<close> and \<open>Set_ticklabels\<close> is
  \<open>minor\<close>, and the constant alignment \<open>"center"\<close> of the tick labels is left out.
\<close>

datatype axis = X | Y

datatype which = Major | Minor

record tick_params =
  tp_axis :: axis
  tp_which :: which
  tp_labelsize :: "nat option"
  tp_labelrotation :: "rotation option"
  tp_direction :: "string option"
  tp_length :: "nat option"
  tp_width :: "nat option"

datatype axes_call =
    Set_ylabel string
  | Locator_params axis nat
  | Set_major_formatter axis
  | Set_ticks axis "pyfloat list" bool
  | Set_ticklabels axis "string list" bool
  | Tick_params tick_params

record state =
  axes :: "axes_call list"
  other_positions :: "pyfloat set"

subsection \<open>Positions: rounding and nudging (lines 85 to 93)\<close>

text \<open>\<open>round(pos, 5)\<close>: to the nearest multiple of \<open>10^-5\<close>, a tie to the even one.\<close>

definition round_half_even :: "rat \<Rightarrow> int" where
  "round_half_even x =
     (let f = \<lfloor>x\<rfloor>; d = x - of_int f
      in if d < 1 / 2 then f
         else if 1 / 2 < d then f + 1
         else if even f then f else f + 1)"

definition round5 :: "pyfloat \<Rightarrow> pyfloat" where
  "round5 pos = of_int (round_half_even (pos * 100000)) / 100000"

definition rounded_positions :: "(pyfloat \<times> string) list \<Rightarrow> pyfloat list" where
  "rounded_positions pairs = map (\<lambda>pos. round5 pos) (map fst pairs)"

definition offset :: "pyfloat \<Rightarrow> pyfloat" where
  "offset w = w * (2 / 10000)"

definition nudged_positions :: "pyfloat \<Rightarrow> pyfloat set \<Rightarrow> pyfloat list \<Rightarrow> pyfloat list" where
  "nudged_positions w other positions =
     map (\<lambda>position. if position \<in> other then position + offset w else position) positions"

subsection \<open>Label length and rotation (lines 80 to 132)\<close>

text \<open>\<open>max\<close> of an empty sequence raises \<open>ValueError\<close>.\<close>

definition max_characters_number_in_labels :: "string list \<Rightarrow> error + nat" where
  "max_characters_number_in_labels labels =
     (case labels of
        [] \<Rightarrow> Inl ValueError
      | l # ls \<Rightarrow> Inr (fold (\<lambda>label m. max m (length label)) ls (length l)))"

text \<open>
  \<open>len(set(labels)) <= width * k / max_characters_number_in_labels\<close>: the float division
  raises \<open>ZeroDivisionError\<close> when every label is empty.
\<close>

definition few_labels :: "pyfloat \<Rightarrow> pyfloat \<Rightarrow> string list \<Rightarrow> nat \<Rightarrow> error + bool" where
  "few_labels w k labels m =
     (if m = 0 then Inl ZeroDivisionError
      else Inr (of_nat (card (set labels)) \<le> w * k / of_nat m))"

definition many_labels :: "pyfloat \<Rightarrow> pyfloat \<Rightarrow> string list \<Rightarrow> nat \<Rightarrow> error + bool" where
  "many_labels w k labels m =
     (if m = 0 then Inl ZeroDivisionError
      else Inr (w * k / of_nat m \<le> of_nat (card (set labels))))"

text \<open>
  The \<open>and\<close> chains are evaluated left to right and stop at the first false operand, so
  the division is reached only for a level of the kind the chain starts with.
\<close>

definition adapted_minor_rotation ::
  "rotation \<Rightarrow> bool \<Rightarrow> bool \<Rightarrow> pyfloat \<Rightarrow> string list \<Rightarrow> nat \<Rightarrow> error + rotation" where
  "adapted_minor_rotation rot minor vert w labels m =
     (if rot = Str ''auto'' then
        (if \<not> minor then Inr (Angle 0)
         else case few_labels w 5 labels m of
           Inl e \<Rightarrow> Inl e
         | Inr c5 \<Rightarrow>
             if c5 \<and> vert then Inr (Angle 90)
             else (case few_labels w 20 labels m of
                     Inl e \<Rightarrow> Inl e
                   | Inr c20 \<Rightarrow> if c20 \<and> \<not> vert then Inr (Angle 90) else Inr (Angle 0)))
      else Inr rot)"

definition adapted_major_rotation ::
  "rotation \<Rightarrow> bool \<Rightarrow> bool \<Rightarrow> pyfloat \<Rightarrow> string list \<Rightarrow> nat \<Rightarrow> error + rotation" where
  "adapted_major_rotation rot minor vert w labels m =
     (if rot = Str ''auto'' then
        (if minor then Inr (Angle 0)
         else case few_labels w 5 labels m of
           Inl e \<Rightarrow> Inl e
         | Inr c5 \<Rightarrow>
             if c5 \<and> \<not> vert then Inr (Angle 90)
             else (case many_labels w 20 labels m of
                     Inl e \<Rightarrow> Inl e
                   | Inr c20 \<Rightarrow> if c20 \<and> vert then Inr (Angle 90) else Inr (Angle 0)))
      else Inr rot)"

subsection \<open>Emitting one level (lines 139 to 203)\<close>

text \<open>\<open>adapted_minor_rotation > 80\<close>: comparing a string with a number raises \<open>TypeError\<close>.\<close>

definition exceeds_80 :: "rotation \<Rightarrow> error + bool" where
  "exceeds_80 r = (case r of Angle a \<Rightarrow> Inr (80 < a) | Str _ \<Rightarrow> Inl TypeError)"

definition no_tick_params :: "axis \<Rightarrow> which \<Rightarrow> tick_params" where
  "no_tick_params a w =
     \<lparr>tp_axis = a, tp_which = w, tp_labelsize = None, tp_labelrotation = None,
      tp_direction = None, tp_length = None, tp_width = None\<rparr>"

text \<open>The calls one level makes on the surface, and the exception that cut them short.\<close>

definition followed_by ::
  "axes_call list \<Rightarrow> axes_call list \<times> error option \<Rightarrow> axes_call list \<times> error option" where
  "followed_by cs rest = (case rest of (ds, r) \<Rightarrow> (cs @ ds, r))"

definition emit_level ::
  "bool \<Rightarrow> bool \<Rightarrow> pyfloat list \<Rightarrow> string list \<Rightarrow> nat \<Rightarrow> rotation \<Rightarrow> rotation
     \<Rightarrow> axes_call list \<times> error option" where
  "emit_level vert minor positions labels m rmin rmaj =
     (if vert then
        followed_by [Set_ticks X positions minor, Set_ticklabels X labels minor]
          (if minor then
             followed_by
               [Tick_params ((no_tick_params X Minor)
                  \<lparr>tp_labelsize := Some 9, tp_labelrotation := Some rmin\<rparr>)]
               (case exceeds_80 rmin of
                  Inl e \<Rightarrow> ([], Some e)
                | Inr far \<Rightarrow>
                    ([Tick_params ((no_tick_params X Major)
                        \<lparr>tp_labelsize := Some 10, tp_direction := Some ''out'',
                         tp_length := Some (if far then 6 * m else 20),
                         tp_width := Some 0\<rparr>)], None))
           else
             ([Tick_params ((no_tick_params X Major)
                 \<lparr>tp_labelsize := Some 10, tp_labelrotation := Some rmaj\<rparr>)], None))
      else
        followed_by [Set_ticks Y positions minor, Set_ticklabels Y labels minor]
          (if minor then
             followed_by
               [Tick_params ((no_tick_params Y Minor)
                  \<lparr>tp_labelsize := Some 9, tp_labelrotation := Some rmin\<rparr>)]
               (case exceeds_80 rmin of
                  Inl e \<Rightarrow> ([], Some e)
                | Inr far \<Rightarrow>
                    ([Tick_params ((no_tick_params Y Major)
                        \<lparr>tp_labelsize := Some 10, tp_direction := Some ''out'',
                         tp_length := Some (if far then 20 else 6 * m),
                         tp_width := Some 0\<rparr>)], None))
           else
             ([Tick_params ((no_tick_params Y Major)
                 \<lparr>tp_labelrotation := Some rmaj\<rparr>)], None)))"

subsection \<open>One iteration of the loop over levels (lines 76 to 203)\<close>

text \<open>
  Unpacking \<open>zip(*pairs)\<close> into two names raises \<open>ValueError\<close> when there is no pair.
  An exception leaves the surface as the calls made so far have left it.
\<close>

definition process_level ::
  "collaborators \<Rightarrow> bar_labels_args \<Rightarrow> int \<Rightarrow> state \<Rightarrow> state \<times> error option" where
  "process_level env a level s =
     (case text_positions env level of
        [] \<Rightarrow> (s, Some ValueError)
      | p # ps \<Rightarrow>
          (let labels = sanitize_ml_labels env (map snd (p # ps))
           in case max_characters_number_in_labels labels of
                Inl e \<Rightarrow> (s, Some e)
              | Inr m \<Rightarrow>
                  (let positions = nudged_positions (width env) (other_positions s)
                                     (rounded_positions (p # ps));
                       s1 = s\<lparr>other_positions := other_positions s \<union> set positions\<rparr>;
                       minor = (level = levels a - 1)
                   in case adapted_minor_rotation (minor_rotation a) minor (vertical a)
                             (width env) labels m of
                        Inl e \<Rightarrow> (s1, Some e)
                      | Inr rmin \<Rightarrow>
                          (case adapted_major_rotation (major_rotation a) minor (vertical a)
                                  (width env) labels m of
                             Inl e \<Rightarrow> (s1, Some e)
                           | Inr rmaj \<Rightarrow>
                               if minor \<and> unique_minor_labels a then (s1, None)
                               else if \<not> minor \<and> unique_major_labels a then (s1, None)
                               else (case emit_level (vertical a) minor positions labels m
                                            rmin rmaj of
                                       (cs, r) \<Rightarrow> (s1\<lparr>axes := axes s1 @ cs\<rparr>, r))))))"

subsection \<open>The whole routine\<close>

text \<open>\<open>reversed(range(max(levels-2, 0), levels))\<close>\<close>

definition level_window :: "int \<Rightarrow> int list" where
  "level_window n = rev [max (n - 2) 0 .. n - 1]"

fun run_levels ::
  "collaborators \<Rightarrow> bar_labels_args \<Rightarrow> int list \<Rightarrow> state \<Rightarrow> state \<times> error option" where
  "run_levels env a [] s = (s, None)"
| "run_levels env a (level # rest) s =
     (case process_level env a level s of
        (s', Some e) \<Rightarrow> (s', Some e)
      | (s', None) \<Rightarrow> run_levels env a rest s')"

text \<open>Lines 52 to 73: the statements before the loop.\<close>

definition prologue :: "bar_labels_args \<Rightarrow> state" where
  "prologue a =
     \<lparr>axes = (if unique_data_label a then [Set_ylabel ''''] else []) @
             (if vertical a
              then [Locator_params Y 5, Set_major_formatter Y]
              else [Locator_params X 5, Set_major_formatter X]),
      other_positions = {}\<rparr>"

definition plot_bar_labels :: "collaborators \<Rightarrow> bar_labels_args \<Rightarrow> state \<times> error option" where
  "plot_bar_labels env a = run_levels env a (level_window (levels a)) (prologue a)"

subsection \<open>Notions used to state the properties\<close>

text \<open>The sanitized labels of a level, and its positions after rounding.\<close>

definition level_labels :: "collaborators \<Rightarrow> int \<Rightarrow> string list" where
  "level_labels env level = sanitize_ml_labels env (map snd (text_positions env level))"

definition level_rounded :: "collaborators \<Rightarrow> int \<Rightarrow> pyfloat list" where
  "level_rounded env level = rounded_positions (text_positions env level)"

text \<open>
  The words of the description: the longest label length of a level, and the density, the
  number of distinct labels divided by that length.
\<close>

definition max_label_len :: "string list \<Rightarrow> nat" where
  "max_label_len labels = Max (length ` set labels)"


text \<open>The axis that carries the categories: x for vertical bars, y for horizontal ones.\<close>

definition label_axis :: "bool \<Rightarrow> axis" where
  "label_axis vert = (if vert then X else Y)"

text \<open>
  A call that sets tick positions, tick labels or the label rotation of the minor ticks
  (\<open>True\<close>) or of the major ticks (\<open>False\<close>).
\<close>

fun level_call :: "bool \<Rightarrow> axes_call \<Rightarrow> bool" where
  "level_call mn (Set_ticks ax ps mn') = (mn' = mn)"
| "level_call mn (Set_ticklabels ax ls mn') = (mn' = mn)"
| "level_call mn (Tick_params tp) = (tp_labelrotation tp \<noteq> None \<and> (tp_which tp = Minor) = mn)"
| "level_call mn (Set_ylabel l) = False"
| "level_call mn (Locator_params ax n) = False"
| "level_call mn (Set_major_formatter ax) = False"

section \<open>barplots/utils/plot\_boxplots.py\<close>

text \<open>
  A dictionary key is a string (a category) or a tuple of strings (a category path); a
  style value is a number (alpha) or a string (colour, hatch). A dictionary is the list of
  its items in iteration order.
\<close>

datatype key = KStr string | KTuple "string list"

datatype style_value = SNum pyfloat | SStr string

type_synonym style_map = "(key \<times> style_value) list"

text \<open>
  \<open>get_best_match(mapping, key)\<close> is imported by the routine and passed here as
  \<open>gbm\<close>; \<open>bars\<close> is what \<open>bar_positions(df, bar_width, space_width)\<close> yields:
  \<open>(x, y, std, index)\<close> for each bar.
\<close>

type_synonym best_match = "style_map \<Rightarrow> key \<Rightarrow> error + style_value"

type_synonym bar = "pyfloat \<times> pyfloat \<times> pyfloat \<times> string list"

record boxplots_args =
  bp_bar_width :: pyfloat
  alphas :: style_map
  colors :: style_map
  hatch :: "style_map option"
  top_index :: string

text \<open>
  The keyword arguments of one call of the drawing primitive \<open>plot_boxplot\<close>; the
  \<open>kwargs\<close> of the caller are passed on unchanged and left out.
\<close>

record boxplot_call =
  arg_x :: pyfloat
  arg_y :: pyfloat
  arg_std :: pyfloat
  arg_bar_width :: pyfloat
  arg_alpha :: style_value
  arg_color :: style_value
  arg_hatch :: "style_value option"
  arg_label :: string

text \<open>
  \<open>mapping[index[-1]] if index[-1] in mapping else get_best_match(mapping, (top_index, *index))\<close>;
  \<open>index[-1]\<close> of an empty tuple raises \<open>IndexError\<close>.
\<close>

definition style_lookup ::
  "best_match \<Rightarrow> style_map \<Rightarrow> string \<Rightarrow> string list \<Rightarrow> error + style_value" where
  "style_lookup gbm mapping tix index =
     (if index = [] then Inl IndexError
      else case map_of mapping (KStr (last index)) of
             Some v \<Rightarrow> Inr v
           | None \<Rightarrow> gbm mapping (KTuple (tix # index)))"

definition hatch_lookup ::
  "best_match \<Rightarrow> style_map option \<Rightarrow> string \<Rightarrow> string list
     \<Rightarrow> error + style_value option" where
  "hatch_lookup gbm h tix index =
     (case h of
        None \<Rightarrow> Inr None
      | Some mapping \<Rightarrow>
          (case style_lookup gbm mapping tix index of
             Inl e \<Rightarrow> Inl e
           | Inr v \<Rightarrow> Inr (Some v)))"

text \<open>
  The arguments of \<open>plot_boxplot\<close> are evaluated in the order they are written:
  alpha, color, hatch, label.
\<close>

definition boxplot_arguments :: "best_match \<Rightarrow> boxplots_args \<Rightarrow> bar \<Rightarrow> error + boxplot_call" where
  "boxplot_arguments gbm a b =
     (case b of (x, y, std, index) \<Rightarrow>
        (case style_lookup gbm (alphas a) (top_index a) index of
           Inl e \<Rightarrow> Inl e
         | Inr al \<Rightarrow>
             (case style_lookup gbm (colors a) (top_index a) index of
                Inl e \<Rightarrow> Inl e
              | Inr co \<Rightarrow>
                  (case hatch_lookup gbm (hatch a) (top_index a) index of
                     Inl e \<Rightarrow> Inl e
                   | Inr ha \<Rightarrow>
                       (if index = [] then Inl IndexError
                        else Inr \<lparr>arg_x = x, arg_y = y, arg_std = std,
                                  arg_bar_width = bp_bar_width a, arg_alpha = al,
                                  arg_color = co, arg_hatch = ha,
                                  arg_label = last index\<rparr>)))))"

text \<open>
  The loop over the bars: the calls of \<open>plot_boxplot\<close> made so far, and the exception
  that stopped the loop, if any.
\<close>

fun plot_boxplots ::
  "best_match \<Rightarrow> boxplots_args \<Rightarrow> bar list \<Rightarrow> boxplot_call list \<times> error option" where
  "plot_boxplots gbm a [] = ([], None)"
| "plot_boxplots gbm a (b # bs) =
     (case boxplot_arguments gbm a b of
        Inl e \<Rightarrow> ([], Some e)
      | Inr c \<Rightarrow>
          (case plot_boxplots gbm a bs of (cs, r) \<Rightarrow> (c # cs, r)))"

text \<open>
  A best-match collaborator for evaluating concrete calls: it resolves a key that is in the
  mapping and fails otherwise.
\<close>

definition exact_key_match :: best_match where
  "exact_key_match mapping k =
     (case map_of mapping k of Some v \<Rightarrow> Inr v | None \<Rightarrow> Inl NoStyleMatch)"

section \<open>Concrete calls\<close>

text \<open>
  The table with index \<open>[("A","x"), ("A","y"), ("B","x")]\<close>, bars 0.8 wide and groups
  0.2 apart: level 1 is the minor level, level 0 the major one. The group \<open>B\<close> has one
  bar, so its label sits at the position of that bar's label.
\<close>

definition ex_env :: collaborators where
  "ex_env =
     \<lparr>width = 26 / 10,
      text_positions = (\<lambda>level.
         if level = 1 then [(4 / 10, ''x''), (12 / 10, ''y''), (22 / 10, ''x'')]
         else if level = 0 then [(8 / 10, ''A''), (22 / 10, ''B'')]
         else []),
      sanitize_ml_labels = (\<lambda>labels. labels)\<rparr>"

definition ex_args :: bar_labels_args where
  "ex_args =
     \<lparr>vertical = True, levels = 2,
      minor_rotation = Str ''auto'', major_rotation = Str ''auto'',
      unique_minor_labels = False, unique_major_labels = False,
      unique_data_label = True\<rparr>"




text \<open>
  Style maps for the bar \<open>("A", "x")\<close> under the top index \<open>"top"\<close>: the alphas have the
  leaf \<open>"x"\<close> and the full tuple (with and without the top index) as keys, the colours
  only the full tuple.
\<close>

definition ex_alphas :: style_map where
  "ex_alphas =
     [(KStr ''x'', SNum (1 / 10)), (KTuple [''A'', ''x''], SNum (9 / 10)),
      (KTuple [''top'', ''A'', ''x''], SNum (9 / 10))]"

definition ex_colors :: style_map where
  "ex_colors = [(KTuple [''top'', ''A'', ''x''], SStr ''red'')]"

definition ex_boxplots_args :: boxplots_args where
  "ex_boxplots_args =
     \<lparr>bp_bar_width = 8 / 10, alphas = ex_alphas, colors = ex_colors, hatch = None,
      top_index = ''top''\<rparr>"

definition ex_bars :: "bar list" where
  "ex_bars = [(4 / 10, 3, 1 / 2, [''A'', ''x''])]"

section \<open>Properties of plot\_bar\_labels\<close>

subsection \<open>Auxiliary facts\<close>

lemma level_window_two: "2 \<le> n \<Longrightarrow> level_window n = [n - 1, n - 2]"
proof -
  assume h: "2 \<le> n"
  have m: "max (n - 2) 0 = n - 2" using h by simp
  have u: "[n - 2 .. n - 1] = [n - 2, n - 1]"
    using h by (simp add: upto_rec1)
  show ?thesis unfolding level_window_def m u by simp
qed


lemma level_window_none: "n \<le> 0 \<Longrightarrow> level_window n = []"
  by (simp add: level_window_def)


lemma max_characters_Max:
  "labels \<noteq> [] \<Longrightarrow> max_characters_number_in_labels labels = Inr (max_label_len labels)"
proof -
  have f: "\<And>m. fold (\<lambda>label m. max m (length label)) ls m = Max (insert m (length ` set ls))" for ls :: "string list"
  proof (induction ls)
    case Nil show ?case by simp
  next
    case (Cons l ls)
    show ?case by (cases "ls = []") (simp_all add: Cons.IH max.assoc)
  qed
  assume "labels \<noteq> []"
  then obtain l ls where "labels = l # ls" by (cases labels) auto
  then show ?thesis
    by (simp add: max_characters_number_in_labels_def max_label_len_def f)
qed

lemma max_characters_Inr: "max_characters_number_in_labels labels = Inr m \<Longrightarrow> labels \<noteq> [] \<and> m = max_label_len labels"
  using max_characters_Max[of labels]
  by (cases labels) (auto simp: max_characters_number_in_labels_def)







lemma emit_level_no_other_kind:
  "c \<in> set (fst (emit_level vert minor ps ls m r1 r2)) \<Longrightarrow> \<not> level_call (\<not> minor) c"
  by (auto simp: emit_level_def followed_by_def no_tick_params_def
           split: if_splits sum.splits prod.splits)

lemma process_level_suppressed:
  "(if level = levels a - 1 then unique_minor_labels a else unique_major_labels a)
   \<Longrightarrow> axes (fst (process_level env a level s)) = axes s"
  by (auto simp: process_level_def Let_def split: list.splits sum.splits)

lemma emit_minor_calls:
  "emit_level vert True ps ls m r1 r2 = (cs, r) \<Longrightarrow> c \<in> set cs \<Longrightarrow> \<not> level_call False c"
  using emit_level_no_other_kind[of c vert True ps ls m r1 r2] by simp

lemma emit_major_calls:
  "emit_level vert False ps ls m r1 r2 = (cs, r) \<Longrightarrow> c \<in> set cs \<Longrightarrow> \<not> level_call True c"
  using emit_level_no_other_kind[of c vert False ps ls m r1 r2] by simp

lemma process_level_appends:
  "\<exists>cs. axes (fst (process_level env a level s)) = axes s @ cs \<and>
        (\<forall>c \<in> set cs. \<not> level_call (level \<noteq> levels a - 1) c)"
proof (cases "level = levels a - 1")
  case True
  then show ?thesis
    by (auto simp: process_level_def Let_def dest: emit_minor_calls
             split: list.splits sum.splits prod.splits)
next
  case False
  then show ?thesis
    by (auto simp: process_level_def Let_def dest: emit_major_calls
             split: list.splits sum.splits prod.splits)
qed

text \<open>What a level that raises nothing has done.\<close>

lemma process_level_success:
  assumes "process_level env a level s = (s', None)"
  shows "\<exists>m rmin rmaj cs.
    text_positions env level \<noteq> [] \<and>
    max_characters_number_in_labels (level_labels env level) = Inr m \<and>
    adapted_minor_rotation (minor_rotation a) (level = levels a - 1) (vertical a)
       (width env) (level_labels env level) m = Inr rmin \<and>
    adapted_major_rotation (major_rotation a) (level = levels a - 1) (vertical a)
       (width env) (level_labels env level) m = Inr rmaj \<and>
    other_positions s' = other_positions s \<union>
       set (nudged_positions (width env) (other_positions s) (level_rounded env level)) \<and>
    axes s' = axes s @ cs \<and>
    (if (if level = levels a - 1 then unique_minor_labels a else unique_major_labels a)
     then cs = []
     else emit_level (vertical a) (level = levels a - 1)
            (nudged_positions (width env) (other_positions s) (level_rounded env level))
            (level_labels env level) m rmin rmaj = (cs, None))"
  using assms
  by (auto simp: process_level_def Let_def level_labels_def level_rounded_def
           split: list.splits sum.splits prod.splits if_splits)

lemma run_levels_appends:
  "\<exists>cs. axes (fst (run_levels env a ls s)) = axes s @ cs"
proof (induction ls arbitrary: s)
  case Nil
  show ?case by simp
next
  case (Cons l ls)
  obtain s1 r where p: "process_level env a l s = (s1, r)" by (cases "process_level env a l s")
  from process_level_appends[of env a l s] p obtain cs where c: "axes s1 = axes s @ cs" by auto
  show ?case
  proof (cases r)
    case None
    from Cons.IH[of s1] obtain ds where "axes (fst (run_levels env a ls s1)) = axes s1 @ ds" by blast
    then show ?thesis using p None c by simp
  next
    case (Some e)
    then show ?thesis using p c by simp
  qed
qed

lemma run_levels_no_level_call:
  assumes "if mn then unique_minor_labels a else unique_major_labels a"
    and "\<forall>c \<in> set (axes s). \<not> level_call mn c"
  shows "\<forall>c \<in> set (axes (fst (run_levels env a ls s))). \<not> level_call mn c"
  using assms(2)
proof (induction ls arbitrary: s)
  case Nil
  then show ?case by simp
next
  case (Cons l ls)
  obtain s1 r where p: "process_level env a l s = (s1, r)" by (cases "process_level env a l s")
  have k: "\<forall>c \<in> set (axes s1). \<not> level_call mn c"
  proof (cases "mn = (l = levels a - 1)")
    case True
    then have "axes (fst (process_level env a l s)) = axes s"
      using assms(1) by (intro process_level_suppressed) (auto split: if_splits)
    then show ?thesis using p Cons.prems by simp
  next
    case False
    then have "mn = (l \<noteq> levels a - 1)" by auto
    then show ?thesis
      using process_level_appends[of env a l s] p Cons.prems by auto
  qed
  show ?case
  proof (cases r)
    case None
    then show ?thesis using p Cons.IH[OF k] by simp
  next
    case (Some e)
    then show ?thesis using p k by simp
  qed
qed

lemma prologue_no_level_call: "\<forall>c \<in> set (axes (prologue a)). \<not> level_call mn c"
  by (simp add: prologue_def)



lemma emit_level_ticks:
  "emit_level vert minor ps ls m r1 r2 = (cs, r) \<Longrightarrow>
     Set_ticks (label_axis vert) ps minor \<in> set cs \<and>
     Set_ticklabels (label_axis vert) ls minor \<in> set cs"
  by (auto simp: emit_level_def followed_by_def label_axis_def
           split: if_splits sum.splits)

lemma emit_minor_success:
  "emit_level vert True ps ls m r1 r2 = (cs, None) \<Longrightarrow>
     \<exists>r. r1 = Angle r \<and>
       cs = [Set_ticks (label_axis vert) ps True, Set_ticklabels (label_axis vert) ls True,
             Tick_params \<lparr>tp_axis = label_axis vert, tp_which = Minor, tp_labelsize = Some 9,
                tp_labelrotation = Some r1, tp_direction = None, tp_length = None,
                tp_width = None\<rparr>,
             Tick_params \<lparr>tp_axis = label_axis vert, tp_which = Major, tp_labelsize = Some 10,
                tp_labelrotation = None, tp_direction = Some ''out'',
                tp_length = Some (if vert then (if 80 < r then 6 * m else 20)
                                  else (if 80 < r then 20 else 6 * m)),
                tp_width = Some 0\<rparr>]"
  by (cases r1)
     (auto simp: emit_level_def followed_by_def label_axis_def no_tick_params_def exceeds_80_def
           split: if_splits)


lemma nudged_empty: "nudged_positions w {} ps = ps"
  by (simp add: nudged_positions_def)


lemma plot_bar_labels_two_levels:
  assumes "plot_bar_labels env a = (s, None)" and "2 \<le> levels a"
  shows "\<exists>s1. process_level env a (levels a - 1) (prologue a) = (s1, None) \<and>
           process_level env a (levels a - 2) s1 = (s, None)"
  using assms
  by (auto simp: plot_bar_labels_def level_window_two split: prod.splits option.splits)

lemma minor_level_positions:
  assumes "process_level env a (levels a - 1) (prologue a) = (s1, None)"
  shows "other_positions s1 = set (level_rounded env (levels a - 1))"
    and "if unique_minor_labels a then axes s1 = axes (prologue a)
         else Set_ticks (label_axis (vertical a)) (level_rounded env (levels a - 1)) True
                \<in> set (axes s1)"
proof -
  from process_level_success[OF assms] obtain m rmin rmaj cs where
    o: "other_positions s1 = other_positions (prologue a) \<union>
         set (nudged_positions (width env) (other_positions (prologue a))
                (level_rounded env (levels a - 1)))" and
    ax: "axes s1 = axes (prologue a) @ cs" and
    e: "if (if levels a - 1 = levels a - 1 then unique_minor_labels a else unique_major_labels a)
        then cs = []
        else emit_level (vertical a) (levels a - 1 = levels a - 1)
               (nudged_positions (width env) (other_positions (prologue a))
                  (level_rounded env (levels a - 1)))
               (level_labels env (levels a - 1)) m rmin rmaj = (cs, None)"
    by blast
  have p: "other_positions (prologue a) = {}" by (simp add: prologue_def)
  show "other_positions s1 = set (level_rounded env (levels a - 1))"
    using o p by (simp add: nudged_empty)
  show "if unique_minor_labels a then axes s1 = axes (prologue a)
         else Set_ticks (label_axis (vertical a)) (level_rounded env (levels a - 1)) True
                \<in> set (axes s1)"
  proof (cases "unique_minor_labels a")
    case True
    then show ?thesis using e ax by simp
  next
    case False
    then have "emit_level (vertical a) True (level_rounded env (levels a - 1))
               (level_labels env (levels a - 1)) m rmin rmaj = (cs, None)"
      using e p by (simp add: nudged_empty)
    from emit_level_ticks[OF this] show ?thesis using False ax by simp
  qed
qed

lemma major_level_positions:
  assumes "process_level env a level s1 = (s, None)" and "level \<noteq> levels a - 1"
  shows "other_positions s = other_positions s1 \<union>
           set (nudged_positions (width env) (other_positions s1) (level_rounded env level))"
    and "if unique_major_labels a then axes s = axes s1
         else Set_ticks (label_axis (vertical a))
                (nudged_positions (width env) (other_positions s1) (level_rounded env level))
                False \<in> set (axes s)"
proof -
  from process_level_success[OF assms(1)] obtain m rmin rmaj cs where
    o: "other_positions s = other_positions s1 \<union>
         set (nudged_positions (width env) (other_positions s1) (level_rounded env level))" and
    ax: "axes s = axes s1 @ cs" and
    e: "if (if level = levels a - 1 then unique_minor_labels a else unique_major_labels a)
        then cs = []
        else emit_level (vertical a) (level = levels a - 1)
               (nudged_positions (width env) (other_positions s1) (level_rounded env level))
               (level_labels env level) m rmin rmaj = (cs, None)"
    by blast
  show "other_positions s = other_positions s1 \<union>
           set (nudged_positions (width env) (other_positions s1) (level_rounded env level))"
    by (rule o)
  show "if unique_major_labels a then axes s = axes s1
         else Set_ticks (label_axis (vertical a))
                (nudged_positions (width env) (other_positions s1) (level_rounded env level))
                False \<in> set (axes s)"
  proof (cases "unique_major_labels a")
    case True
    then show ?thesis using e ax assms(2) by simp
  next
    case False
    then have "emit_level (vertical a) False
               (nudged_positions (width env) (other_positions s1) (level_rounded env level))
               (level_labels env level) m rmin rmaj = (cs, None)"
      using e assms(2) by simp
    from emit_level_ticks[OF this] show ?thesis using False ax by simp
  qed
qed



subsection \<open>Nudging of positions\<close>




subsection \<open>Automatic rotation of the minor labels\<close>




subsection \<open>Length of the paired major tick\<close>

text \<open>
  C3, as the code has it. For a minor level that is emitted, the adopted minor rotation is a
  number and the major ticks of the label axis get width 0 and a length that depends on the
  orientation: for vertical bars 6 times the longest label length when the rotation exceeds
  80 and 20 otherwise; for horizontal bars 20 when the rotation exceeds 80 and 6 times the
  longest label length otherwise.
\<close>

theorem major_tick_length:
  assumes "process_level env a level s = (s', None)"
    and "level = levels a - 1"
    and "\<not> unique_minor_labels a"
  shows "\<exists>r. adapted_minor_rotation (minor_rotation a) True (vertical a) (width env)
           (level_labels env level) (max_label_len (level_labels env level)) = Inr (Angle r) \<and>
         Tick_params \<lparr>tp_axis = label_axis (vertical a), tp_which = Major,
            tp_labelsize = Some 10, tp_labelrotation = None, tp_direction = Some ''out'',
            tp_length = Some (if vertical a
                              then (if 80 < r then 6 * max_label_len (level_labels env level)
                                    else 20)
                              else (if 80 < r then 20
                                    else 6 * max_label_len (level_labels env level))),
            tp_width = Some 0\<rparr> \<in> set (axes s')"
proof -
  let ?labels = "level_labels env level"
  from process_level_success[OF assms(1)] obtain m rmin rmaj cs where
    m: "max_characters_number_in_labels ?labels = Inr m" and
    r: "adapted_minor_rotation (minor_rotation a) (level = levels a - 1) (vertical a)
          (width env) ?labels m = Inr rmin" and
    ax: "axes s' = axes s @ cs" and
    e: "if (if level = levels a - 1 then unique_minor_labels a else unique_major_labels a)
        then cs = []
        else emit_level (vertical a) (level = levels a - 1)
               (nudged_positions (width env) (other_positions s) (level_rounded env level))
               ?labels m rmin rmaj = (cs, None)"
    by blast
  have mm: "m = max_label_len ?labels" using max_characters_Inr[OF m] by simp
  have "emit_level (vertical a) True
               (nudged_positions (width env) (other_positions s) (level_rounded env level))
               ?labels m rmin rmaj = (cs, None)"
    using e assms(2,3) by simp
  from emit_minor_success[OF this] obtain x where
    x: "rmin = Angle x" and
    c: "Tick_params \<lparr>tp_axis = label_axis (vertical a), tp_which = Major, tp_labelsize = Some 10,
                tp_labelrotation = None, tp_direction = Some ''out'',
                tp_length = Some (if vertical a then (if 80 < x then 6 * m else 20)
                                  else (if 80 < x then 20 else 6 * m)),
                tp_width = Some 0\<rparr> \<in> set cs"
    by auto
  show ?thesis using x c r mm ax assms(2) by auto
qed

theorem major_tick_length_witness:
  "snd (process_level ex_env (ex_args\<lparr>vertical := False\<rparr>) 1
          (prologue (ex_args\<lparr>vertical := False\<rparr>))) = None \<and>
   1 = levels (ex_args\<lparr>vertical := False\<rparr>) - 1 \<and>
   \<not> unique_minor_labels (ex_args\<lparr>vertical := False\<rparr>) \<and>
   (\<exists>r. adapted_minor_rotation (Str ''auto'') True False (width ex_env)
           (level_labels ex_env 1) (max_label_len (level_labels ex_env 1)) = Inr (Angle r) \<and>
        Tick_params \<lparr>tp_axis = Y, tp_which = Major,
            tp_labelsize = Some 10, tp_labelrotation = None, tp_direction = Some ''out'',
            tp_length = Some (if 80 < r then 20 else 6 * max_label_len (level_labels ex_env 1)),
            tp_width = Some 0\<rparr>
          \<in> set (axes (fst (process_level ex_env (ex_args\<lparr>vertical := False\<rparr>) 1
                               (prologue (ex_args\<lparr>vertical := False\<rparr>))))))"
proof -
  let ?a = "ex_args\<lparr>vertical := False\<rparr>"
  have n: "snd (process_level ex_env ?a 1 (prologue ?a)) = None"
    by code_simp
  then have p: "process_level ex_env ?a 1 (prologue ?a) =
      (fst (process_level ex_env ?a 1 (prologue ?a)), None)"
    by (simp add: prod_eq_iff)
  have l: "1 = levels ?a - 1" and u: "\<not> unique_minor_labels ?a"
    and v: "\<not> vertical ?a" and r: "minor_rotation ?a = Str ''auto''"
    by (simp_all add: ex_args_def)
  show ?thesis
    using major_tick_length[OF p l u] n l u v r
    by (simp add: label_axis_def)
qed

text \<open>
  C3 as it is written fails for horizontal bars: with a fixed rotation of 90 the length is
  20, not 6 times the longest label length (here 1), and with a fixed rotation of 0 the
  length is 6, not 20.
\<close>

theorem major_tick_length_counterexample:
  "max_label_len (level_labels ex_env 1) = 1 \<and>
   axes (fst (plot_bar_labels ex_env
                (ex_args\<lparr>vertical := False, minor_rotation := Angle 90\<rparr>))) ! 5 =
     Tick_params \<lparr>tp_axis = Y, tp_which = Minor, tp_labelsize = Some 9,
        tp_labelrotation = Some (Angle 90), tp_direction = None, tp_length = None,
        tp_width = None\<rparr> \<and>
   axes (fst (plot_bar_labels ex_env
                (ex_args\<lparr>vertical := False, minor_rotation := Angle 90\<rparr>))) ! 6 =
     Tick_params \<lparr>tp_axis = Y, tp_which = Major, tp_labelsize = Some 10,
        tp_labelrotation = None, tp_direction = Some ''out'', tp_length = Some 20,
        tp_width = Some 0\<rparr> \<and>
   axes (fst (plot_bar_labels ex_env
                (ex_args\<lparr>vertical := False, minor_rotation := Angle 0\<rparr>))) ! 6 =
     Tick_params \<lparr>tp_axis = Y, tp_which = Major, tp_labelsize = Some 10,
        tp_labelrotation = None, tp_direction = Some ''out'', tp_length = Some 6,
        tp_width = Some 0\<rparr>"
proof -
  have m: "max_label_len (level_labels ex_env 1) = 1" by code_simp
  have a: "axes (fst (plot_bar_labels ex_env
                (ex_args\<lparr>vertical := False, minor_rotation := Angle 90\<rparr>))) ! 5 =
     Tick_params \<lparr>tp_axis = Y, tp_which = Minor, tp_labelsize = Some 9,
        tp_labelrotation = Some (Angle 90), tp_direction = None, tp_length = None,
        tp_width = None\<rparr>"
    by code_simp
  have b: "axes (fst (plot_bar_labels ex_env
                (ex_args\<lparr>vertical := False, minor_rotation := Angle 90\<rparr>))) ! 6 =
     Tick_params \<lparr>tp_axis = Y, tp_which = Major, tp_labelsize = Some 10,
        tp_labelrotation = None, tp_direction = Some ''out'', tp_length = Some 20,
        tp_width = Some 0\<rparr>"
    by code_simp
  have c: "axes (fst (plot_bar_labels ex_env
                (ex_args\<lparr>vertical := False, minor_rotation := Angle 0\<rparr>))) ! 6 =
     Tick_params \<lparr>tp_axis = Y, tp_which = Major, tp_labelsize = Some 10,
        tp_labelrotation = None, tp_direction = Some ''out'', tp_length = Some 6,
        tp_width = Some 0\<rparr>"
    by code_simp
  show ?thesis using m a b c by simp
qed

subsection \<open>Automatic rotation of the major labels\<close>




subsection \<open>Uniqueness suppression\<close>

text \<open>
  C5. With \<open>unique_minor_labels\<close> no call of the routine sets tick positions, tick labels
  or a label rotation for the minor ticks, and with \<open>unique_major_labels\<close> none does for
  the major ticks, whether the call returns or raises; an iteration over a suppressed level
  leaves the surface as it found it.
\<close>

theorem suppressed_level_emits_nothing:
  "(unique_minor_labels a \<longrightarrow>
      (\<forall>c \<in> set (axes (fst (plot_bar_labels env a))). \<not> level_call True c)) \<and>
   (unique_major_labels a \<longrightarrow>
      (\<forall>c \<in> set (axes (fst (plot_bar_labels env a))). \<not> level_call False c)) \<and>
   (\<forall>level s. (if level = levels a - 1 then unique_minor_labels a else unique_major_labels a)
      \<longrightarrow> axes (fst (process_level env a level s)) = axes s)"
  using run_levels_no_level_call[of True a "prologue a" env "level_window (levels a)"]
        run_levels_no_level_call[of False a "prologue a" env "level_window (levels a)"]
        prologue_no_level_call[of a]
  by (simp add: plot_bar_labels_def process_level_suppressed)

theorem suppressed_level_emits_nothing_witness:
  "unique_minor_labels (ex_args\<lparr>unique_minor_labels := True\<rparr>) \<and>
   list_all (\<lambda>c. \<not> level_call True c)
     (axes (fst (plot_bar_labels ex_env (ex_args\<lparr>unique_minor_labels := True\<rparr>)))) \<and>
   axes (fst (process_level ex_env (ex_args\<lparr>unique_minor_labels := True\<rparr>) 1
                (prologue (ex_args\<lparr>unique_minor_labels := True\<rparr>)))) =
     [Set_ylabel '''', Locator_params Y 5, Set_major_formatter Y] \<and>
   Set_ticks X [4 / 5, 55013 / 25000] False
     \<in> set (axes (fst (plot_bar_labels ex_env (ex_args\<lparr>unique_minor_labels := True\<rparr>))))"
proof -
  have p: "axes (prologue (ex_args\<lparr>unique_minor_labels := True\<rparr>)) =
      [Set_ylabel '''', Locator_params Y 5, Set_major_formatter Y]"
    by (simp add: prologue_def ex_args_def)
  have l: "levels (ex_args\<lparr>unique_minor_labels := True\<rparr>) - 1 = 1"
    by (simp add: ex_args_def)
  have e: "Set_ticks X [4 / 5, 55013 / 25000] False
     \<in> set (axes (fst (plot_bar_labels ex_env (ex_args\<lparr>unique_minor_labels := True\<rparr>))))"
    by code_simp
  show ?thesis
    using suppressed_level_emits_nothing
            [of "ex_args\<lparr>unique_minor_labels := True\<rparr>" ex_env] p l e
    by (simp add: list_all_iff)
qed

subsection \<open>A level without labels\<close>



subsection \<open>Positions of a suppressed level\<close>

text \<open>
  C8. In a call over two levels that raises nothing with \<open>unique_minor_labels\<close>, nothing is
  emitted for the minor level, yet the set of seen positions ends as the rounded minor
  positions together with the final major positions, and the major positions (emitted unless
  \<open>unique_major_labels\<close> suppresses them too) are nudged against the minor ones.
\<close>

theorem suppressed_positions_still_seen:
  assumes "plot_bar_labels env a = (s, None)"
    and "2 \<le> levels a"
    and "unique_minor_labels a"
  shows "let minor_ps = level_rounded env (levels a - 1);
             major_ps = level_rounded env (levels a - 2);
             final = nudged_positions (width env) (set minor_ps) major_ps
         in list_all (\<lambda>c. \<not> level_call True c) (axes s) \<and>
            other_positions s = set minor_ps \<union> set final \<and>
            (if unique_major_labels a then axes s = axes (prologue a)
             else Set_ticks (label_axis (vertical a)) final False \<in> set (axes s))"
proof -
  from plot_bar_labels_two_levels[OF assms(1,2)] obtain s1 where
    p1: "process_level env a (levels a - 1) (prologue a) = (s1, None)" and
    p2: "process_level env a (levels a - 2) s1 = (s, None)"
    by blast
  have ne: "levels a - 2 \<noteq> levels a - 1" by simp
  have o1: "other_positions s1 = set (level_rounded env (levels a - 1))"
    by (rule minor_level_positions(1)[OF p1])
  have a1: "axes s1 = axes (prologue a)"
    using minor_level_positions(2)[OF p1] assms(3) by simp
  have n: "list_all (\<lambda>c. \<not> level_call True c) (axes s)"
    using run_levels_no_level_call[of True a "prologue a" env "level_window (levels a)"]
          prologue_no_level_call[of a True] assms(1,3)
    by (simp add: plot_bar_labels_def list_all_iff)
  note m1 = major_level_positions(1)[OF p2 ne, unfolded o1]
  note m2 = major_level_positions(2)[OF p2 ne, unfolded o1 a1]
  show ?thesis
    using n m1 m2 by (simp add: Let_def)
qed

theorem suppressed_positions_still_seen_witness:
  "snd (plot_bar_labels ex_env (ex_args\<lparr>unique_minor_labels := True\<rparr>)) = None \<and>
   2 \<le> levels (ex_args\<lparr>unique_minor_labels := True\<rparr>) \<and>
   unique_minor_labels (ex_args\<lparr>unique_minor_labels := True\<rparr>) \<and>
   list_all (\<lambda>c. \<not> level_call True c)
     (axes (fst (plot_bar_labels ex_env (ex_args\<lparr>unique_minor_labels := True\<rparr>)))) \<and>
   other_positions (fst (plot_bar_labels ex_env (ex_args\<lparr>unique_minor_labels := True\<rparr>))) =
     set [2 / 5, 6 / 5, 11 / 5] \<union> set [4 / 5, 11 / 5 + 26 / 10 * (2 / 10000)] \<and>
   Set_ticks X [4 / 5, 11 / 5 + 26 / 10 * (2 / 10000)] False
     \<in> set (axes (fst (plot_bar_labels ex_env (ex_args\<lparr>unique_minor_labels := True\<rparr>))))"
proof -
  let ?a = "ex_args\<lparr>unique_minor_labels := True\<rparr>"
  have n: "snd (plot_bar_labels ex_env ?a) = None" by code_simp
  then have p: "plot_bar_labels ex_env ?a = (fst (plot_bar_labels ex_env ?a), None)"
    by (simp add: prod_eq_iff)
  have l: "levels ?a = 2" and u: "unique_minor_labels ?a"
    and um: "\<not> unique_major_labels ?a" and v: "vertical ?a"
    by (simp_all add: ex_args_def)
  have l2: "2 \<le> levels ?a" using l by simp
  have r1: "level_rounded ex_env 1 = [2 / 5, 6 / 5, 11 / 5]" by code_simp
  have r0: "level_rounded ex_env 0 = [4 / 5, 11 / 5]" by code_simp
  have f: "nudged_positions (width ex_env) (set [2 / 5, 6 / 5, 11 / 5]) [4 / 5, 11 / 5] =
      [4 / 5, 11 / 5 + 26 / 10 * (2 / 10000)]"
    by (simp add: nudged_positions_def offset_def ex_env_def)
  show ?thesis
    using suppressed_positions_still_seen[OF p l2 u] n l u um v r1 r0 f
    by (auto simp: Let_def label_axis_def)
qed

subsection \<open>The label of the value axis\<close>

text \<open>
  C9. With \<open>unique_data_label\<close> the first call on the surface is \<open>set_ylabel("")\<close>,
  whatever \<open>vertical\<close> is: the label of the y axis is cleared for horizontal bars too.
\<close>

theorem ylabel_cleared:
  "unique_data_label a \<Longrightarrow>
     take 1 (axes (fst (plot_bar_labels env a))) = [Set_ylabel ''''] \<and>
     Set_ylabel '''' \<in> set (axes (fst (plot_bar_labels env a)))"
proof -
  assume u: "unique_data_label a"
  obtain cs where "axes (fst (plot_bar_labels env a)) = axes (prologue a) @ cs"
    using run_levels_appends[of env a "level_window (levels a)" "prologue a"]
    by (auto simp: plot_bar_labels_def)
  then show ?thesis using u by (simp add: prologue_def)
qed

theorem ylabel_cleared_witness:
  "unique_data_label (ex_args\<lparr>vertical := False\<rparr>) \<and>
   \<not> vertical (ex_args\<lparr>vertical := False\<rparr>) \<and>
   take 1 (axes (fst (plot_bar_labels ex_env (ex_args\<lparr>vertical := False\<rparr>)))) =
     [Set_ylabel ''''] \<and>
   Set_ylabel '''' \<in> set (axes (fst (plot_bar_labels ex_env (ex_args\<lparr>vertical := False\<rparr>))))"
  using ylabel_cleared [of "ex_args\<lparr>vertical := False\<rparr>" ex_env]
  by (simp add: ex_args_def)

section \<open>Properties of plot\_boxplots\<close>

subsection \<open>Auxiliary facts\<close>

lemma boxplot_arguments_Inr:
  assumes "boxplot_arguments gbm a (x, y, std, index) = Inr c"
  shows "style_lookup gbm (alphas a) (top_index a) index = Inr (arg_alpha c)"
    and "style_lookup gbm (colors a) (top_index a) index = Inr (arg_color c)"
    and "hatch_lookup gbm (hatch a) (top_index a) index = Inr (arg_hatch c)"
    and "index \<noteq> []" and "arg_label c = last index"
  using assms
  by (auto simp: boxplot_arguments_def split: sum.splits if_splits)

lemma boxplot_arguments_Inl_no_hatch:
  assumes "hatch a = None" and "boxplot_arguments gbm a (x, y, std, index) = Inl e"
  shows "style_lookup gbm (alphas a) (top_index a) index = Inl e \<or>
         style_lookup gbm (colors a) (top_index a) index = Inl e"
  using assms
  by (auto simp: boxplot_arguments_def hatch_lookup_def style_lookup_def
           split: sum.splits if_splits)

lemma plot_boxplots_success:
  "plot_boxplots gbm a bars = (calls, None) \<Longrightarrow>
     length calls = length bars \<and>
     (\<forall>i < length bars. boxplot_arguments gbm a (bars ! i) = Inr (calls ! i))"
proof (induction bars arbitrary: calls)
  case Nil
  then show ?case by simp
next
  case (Cons b bs)
  from Cons.prems obtain c cs where
    c: "boxplot_arguments gbm a b = Inr c" and
    cs: "plot_boxplots gbm a bs = (cs, None)" and
    e: "calls = c # cs"
    by (auto split: sum.splits prod.splits)
  from Cons.IH[OF cs] have
    ih: "length cs = length bs \<and> (\<forall>i < length bs. boxplot_arguments gbm a (bs ! i) = Inr (cs ! i))" .
  show ?case using c e ih by (auto simp: nth_Cons split: nat.splits)
qed

lemma plot_boxplots_calls:
  "c \<in> set (fst (plot_boxplots gbm a bars)) \<Longrightarrow> \<exists>b \<in> set bars. boxplot_arguments gbm a b = Inr c"
proof (induction bars arbitrary: c)
  case Nil
  then show ?case by simp
next
  case (Cons b bs)
  then show ?case by (auto split: sum.splits prod.splits)
qed

lemma plot_boxplots_error:
  "snd (plot_boxplots gbm a bars) = Some e \<Longrightarrow> \<exists>b \<in> set bars. boxplot_arguments gbm a b = Inl e"
proof (induction bars)
  case Nil
  then show ?case by simp
next
  case (Cons b bs)
  then show ?case by (auto split: sum.splits prod.splits)
qed

subsection \<open>Resolution of a style\<close>




subsection \<open>No hatch mapping\<close>

text \<open>
  C10. With \<open>hatch = None\<close> every call of \<open>plot_boxplot\<close> gets \<open>hatch = None\<close>, the hatch
  argument is \<open>None\<close> without any lookup, whatever \<open>get_best_match\<close> would do, and a call
  that raises does so in the lookup of an alpha or of a colour; a call that raises nothing
  draws every bar.
\<close>

theorem no_hatch_no_lookup:
  assumes "hatch a = None"
  shows "list_all (\<lambda>c. arg_hatch c = None) (fst (plot_boxplots gbm a bars)) \<and>
         hatch_lookup gbm (hatch a) tix index = Inr None \<and>
         (case snd (plot_boxplots gbm a bars) of
            None \<Rightarrow> length (fst (plot_boxplots gbm a bars)) = length bars
          | Some e \<Rightarrow>
              \<exists>b \<in> set bars.
                 style_lookup gbm (alphas a) (top_index a) (snd (snd (snd b))) = Inl e \<or>
                 style_lookup gbm (colors a) (top_index a) (snd (snd (snd b))) = Inl e)"
proof -
  have h: "arg_hatch c = None" if "c \<in> set (fst (plot_boxplots gbm a bars))" for c
  proof -
    from plot_boxplots_calls[OF that] obtain x y std ix where
      "boxplot_arguments gbm a (x, y, std, ix) = Inr c" by auto
    from boxplot_arguments_Inr(3)[OF this] show ?thesis
      using assms by (simp add: hatch_lookup_def)
  qed
  have l: "hatch_lookup gbm (hatch a) tix index = Inr None"
    using assms by (simp add: hatch_lookup_def)
  have r: "case snd (plot_boxplots gbm a bars) of
            None \<Rightarrow> length (fst (plot_boxplots gbm a bars)) = length bars
          | Some e \<Rightarrow>
              \<exists>b \<in> set bars.
                 style_lookup gbm (alphas a) (top_index a) (snd (snd (snd b))) = Inl e \<or>
                 style_lookup gbm (colors a) (top_index a) (snd (snd (snd b))) = Inl e"
  proof (cases "snd (plot_boxplots gbm a bars)")
    case None
    then have "plot_boxplots gbm a bars = (fst (plot_boxplots gbm a bars), None)"
      by (simp add: prod_eq_iff)
    from plot_boxplots_success[OF this] show ?thesis using None by simp
  next
    case (Some e)
    from plot_boxplots_error[OF Some] obtain x y std ix where
      m: "(x, y, std, ix) \<in> set bars" and "boxplot_arguments gbm a (x, y, std, ix) = Inl e"
      by auto
    from boxplot_arguments_Inl_no_hatch[OF assms this(2)] m show ?thesis
      using Some by force
  qed
  show ?thesis using h l r by (simp add: list_all_iff)
qed

theorem no_hatch_no_lookup_witness:
  "hatch ex_boxplots_args = None \<and>
   map arg_hatch (fst (plot_boxplots exact_key_match ex_boxplots_args ex_bars)) = [None] \<and>
   hatch_lookup exact_key_match (hatch ex_boxplots_args) ''top'' [''A'', ''x''] = Inr None \<and>
   snd (plot_boxplots exact_key_match ex_boxplots_args ex_bars) = None \<and>
   length (fst (plot_boxplots exact_key_match ex_boxplots_args ex_bars)) = length ex_bars"
proof -
  have h: "hatch ex_boxplots_args = None" by (simp add: ex_boxplots_args_def)
  have n: "snd (plot_boxplots exact_key_match ex_boxplots_args ex_bars) = None"
    by code_simp
  have m: "map arg_hatch (fst (plot_boxplots exact_key_match ex_boxplots_args ex_bars)) = [None]"
    by code_simp
  show ?thesis
    using no_hatch_no_lookup[OF h, of exact_key_match ex_bars "''top''" "[''A'', ''x'']"] h n m
    by simp
qed

end
